theory Spec2Isabelle
  imports Main "HOL-Library.Word" "HOL-Library.Sublist"
begin

section \<open>JavaScript strings\<close>

text \<open>
  A JavaScript string is a sequence of UTF-16 code units; \<open>length\<close>, \<open>substring\<close>,
  \<open>indexOf\<close>, \<open>startsWith\<close>, \<open>trimEnd\<close> and \<open>replace\<close> all count and compare code units.
  Offsets and counts are JavaScript numbers, here integers.
\<close>

type_synonym code_unit = "16 word"
type_synonym jsstring = "code_unit list"

definition js :: "string \<Rightarrow> jsstring" where
  \<comment> \<open>An ASCII literal of the source as a sequence of code units.\<close>
  "js s = map (\<lambda>c. word_of_nat (of_char c)) s"

definition isWhiteSpace :: "code_unit \<Rightarrow> bool" where
  \<comment> \<open>The code units that \<open>trimEnd\<close> removes: ECMAScript WhiteSpace and LineTerminator.\<close>
  "isWhiteSpace c \<longleftrightarrow>
     c = 0x0009 \<or> c = 0x000A \<or> c = 0x000B \<or> c = 0x000C \<or> c = 0x000D \<or> c = 0x0020 \<or>
     c = 0x00A0 \<or> c = 0x1680 \<or> (0x2000 \<le> c \<and> c \<le> 0x200A) \<or> c = 0x2028 \<or> c = 0x2029 \<or>
     c = 0x202F \<or> c = 0x205F \<or> c = 0x3000 \<or> c = 0xFEFF"

definition substring :: "jsstring \<Rightarrow> int \<Rightarrow> int \<Rightarrow> jsstring" where
  \<comment> \<open>\<open>s.substring(a, b)\<close>: both arguments are clamped to \<open>[0, length]\<close> and swapped when
      \<open>a > b\<close>.\<close>
  "substring s a b =
     (let n = int (length s);
          a' = max 0 (min a n);
          b' = max 0 (min b n);
          lo = min a' b';
          hi = max a' b'
      in take (nat (hi - lo)) (drop (nat lo) s))"

definition substringFrom :: "jsstring \<Rightarrow> int \<Rightarrow> jsstring" where
  \<comment> \<open>\<open>s.substring(a)\<close>: the end defaults to the length.\<close>
  "substringFrom s a = substring s a (int (length s))"

definition startsWith :: "jsstring \<Rightarrow> jsstring \<Rightarrow> bool" where
  "startsWith s pat = prefix pat s"

fun indexOf :: "jsstring \<Rightarrow> jsstring \<Rightarrow> int" where
  \<comment> \<open>\<open>s.indexOf(pat)\<close>: the first position where \<open>pat\<close> occurs, \<open>-1\<close> when there is none.\<close>
  "indexOf [] pat = (if pat = [] then 0 else - 1)"
| "indexOf (c # cs) pat =
     (if prefix pat (c # cs) then 0
      else (let r = indexOf cs pat in if r < 0 then - 1 else r + 1))"

definition trimEnd :: "jsstring \<Rightarrow> jsstring" where
  "trimEnd s = rev (dropWhile isWhiteSpace (rev s))"

function replaceAll :: "jsstring \<Rightarrow> jsstring \<Rightarrow> jsstring \<Rightarrow> jsstring" where
  \<comment> \<open>\<open>s.replace(/pat/g, rep)\<close> for a non-empty literal pattern: matches are found left to
      right and do not overlap.\<close>
  "replaceAll pat rep [] = []"
| "replaceAll pat rep (c # cs) =
     (if pat \<noteq> [] \<and> prefix pat (c # cs)
      then rep @ replaceAll pat rep (drop (length pat) (c # cs))
      else c # replaceAll pat rep cs)"
  by pat_completeness auto
termination
  by (relation "measure (\<lambda>(pat, rep, s). length s)") (auto simp: Suc_le_eq)

datatype js_error = TypeError | RangeError

definition repeat :: "jsstring \<Rightarrow> int \<Rightarrow> js_error + jsstring" where
  \<comment> \<open>\<open>s.repeat(n)\<close> raises a RangeError on a negative count.\<close>
  "repeat s n = (if n < 0 then Inl RangeError else Inr (concat (replicate (nat n) s)))"

fun replaceQuotes :: "bool \<Rightarrow> jsstring \<Rightarrow> jsstring" where
  \<comment> \<open>\<open>s.replace(/^"|"$/g, '')\<close>, scanning left to right; the flag says whether the scan
      is at the start of the string. \<open>^"\<close> matches a quote at the start, \<open>"$\<close> a quote
      that is the last code unit; a match is removed and the scan goes on behind it.\<close>
  "replaceQuotes atStart [] = []"
| "replaceQuotes atStart (c # cs) =
     (if c = 0x22 \<and> (atStart \<or> cs = []) then replaceQuotes False cs
      else c # replaceQuotes False cs)"

section \<open>Cells\<close>

datatype NotebookCellKind = Markup | Code

record cell_metadata =
  asMarkdown :: bool
  startingWhitespace :: int
  endingWhitespace :: int

record NotebookCellData =
  cell_value :: jsstring
  kind :: NotebookCellKind
  languageId :: string
  metadata :: "cell_metadata option"

section \<open>The splitter: \<open>parseClojure\<close>\<close>

text \<open>
  The spans of the top-level forms come from the token cursor, which is not part of this
  development: \<open>parseClojure\<close> takes them as its second argument.
\<close>

definition flat :: "(int \<times> int) list \<Rightarrow> int list" where
  \<comment> \<open>\<open>cursor.rangesForTopLevelForms().flat()\<close>: the spans of the top-level forms, which
      the token cursor supplies, as one list of offsets.\<close>
  "flat forms = concat (map (\<lambda>(s, e). [s, e]) forms)"

definition allRanges :: "jsstring \<Rightarrow> (int \<times> int) list \<Rightarrow> (int \<times> int) list" where
  "allRanges content forms =
     (let topLevelRanges = flat forms @ [int (length content)]
      in zip (butlast (0 # topLevelRanges)) topLevelRanges)"

definition rangeCell :: "jsstring \<Rightarrow> (int \<times> int) \<times> nat \<Rightarrow> NotebookCellData" where
  \<comment> \<open>The callback of \<open>allRanges.map\<close>.\<close>
  "rangeCell content = (\<lambda>((start, end), index).
     (let isWhitespace = (index mod 2 = 0);
          rangeContent = substring content start end
      in if isWhitespace then
           (if start = end then
              \<lparr>cell_value = [], kind = Markup, languageId = ''markdown'', metadata = None\<rparr>
            else if startsWith rangeContent (js ''\<newline>\<newline>;; '') then
              (let startingWhitespace = indexOf rangeContent (js ''\<newline>;; '');
                   endingWhitespace = int (length rangeContent) - int (length (trimEnd rangeContent))
               in \<lparr>cell_value =
                      replaceAll (js ''\<newline>;; '') (js ''\<newline>'')
                        (trimEnd (substringFrom rangeContent startingWhitespace)),
                    kind = Markup, languageId = ''markdown'',
                    metadata = Some \<lparr>asMarkdown = True, startingWhitespace = startingWhitespace,
                                      endingWhitespace = endingWhitespace\<rparr>\<rparr>)
            else
              \<lparr>cell_value = rangeContent, kind = Markup, languageId = ''markdown'', metadata = None\<rparr>)
         else
           \<lparr>cell_value = rangeContent, kind = Code, languageId = ''clojure'', metadata = None\<rparr>))"

definition rangeCells :: "jsstring \<Rightarrow> (int \<times> int) list \<Rightarrow> NotebookCellData list" where
  \<comment> \<open>The mapped list, before \<open>.filter\<close>.\<close>
  "rangeCells content forms =
     (let rs = allRanges content forms in map (rangeCell content) (zip rs [0..<length rs]))"

definition parseClojure :: "jsstring \<Rightarrow> (int \<times> int) list \<Rightarrow> NotebookCellData list" where
  "parseClojure content forms = filter (\<lambda>x. length (cell_value x) \<noteq> 0) (rangeCells content forms)"

section \<open>The joiner: \<open>writeCellsToClojure\<close>\<close>

definition cellText :: "NotebookCellData \<Rightarrow> js_error + jsstring" where
  \<comment> \<open>The callback of \<open>cells.map\<close>. Reading \<open>x.metadata.asMarkdown\<close> of a cell that has no
      metadata raises a TypeError.\<close>
  "cellText x =
     (if kind x = Code then Inr (cell_value x)
      else case metadata x of
        None \<Rightarrow> Inl TypeError
      | Some m \<Rightarrow>
          if asMarkdown m then
            (case repeat (js ''\<newline>'') (startingWhitespace m) of
               Inl e \<Rightarrow> Inl e
             | Inr lead \<Rightarrow>
                 (case repeat (js ''\<newline>'') (endingWhitespace m) of
                    Inl e \<Rightarrow> Inl e
                  | Inr trail \<Rightarrow>
                      Inr (lead
                           @ replaceAll (js ''\<newline>'') (js ''\<newline>;; '')
                               (cell_value x)
                           @ trail)))
          else Inr (cell_value x))"

fun mapE :: "('a \<Rightarrow> js_error + 'b) \<Rightarrow> 'a list \<Rightarrow> js_error + 'b list" where
  \<comment> \<open>\<open>Array.prototype.map\<close> with a callback that may throw: the first exception ends it.\<close>
  "mapE f [] = Inr []"
| "mapE f (x # xs) =
     (case f x of
        Inl e \<Rightarrow> Inl e
      | Inr y \<Rightarrow> (case mapE f xs of Inl e \<Rightarrow> Inl e | Inr ys \<Rightarrow> Inr (y # ys)))"

definition writeCellsToClojure :: "NotebookCellData list \<Rightarrow> js_error + jsstring" where
  "writeCellsToClojure cells =
     (case mapE cellText cells of Inl e \<Rightarrow> Inl e | Inr parts \<Rightarrow> Inr (concat parts))"

section \<open>The execution pipeline: \<open>executeAll\<close> and \<open>doExecution\<close>\<close>

text \<open>
  The evaluator, the pretty printer, \<open>JSON.stringify\<close> and the clock are services of the
  environment. The evaluator works on a session that it may change; evaluation and pretty
  printing may throw any value. \<open>JSON.stringify\<close> returns a string or \<open>undefined\<close>, or it throws
  (as it does on a value that refers to itself and on a BigInt). \<open>now env k\<close> is what the
  \<open>k\<close>-th call of \<open>Date.now()\<close> returns. The calls on the host's execution object are recorded,
  in order, in a trace; they are taken not to throw. A cell of the pipeline is the text of its
  document.

  \<open>doExecution\<close> is an async function: it resolves, or it rejects with a thrown value. What is
  thrown inside its \<open>try\<close> block is caught; what is thrown inside its \<open>catch\<close> block is not, and
  rejects the promise. The loop of \<open>executeAll\<close> awaits each execution before it begins the
  next one and has no \<open>try\<close> of its own: a rejection ends the loop and rejects \<open>executeAll\<close>.
  Both functions return the world they leave behind and, when they reject, the thrown value.
\<close>

datatype 'v thrown =
    ErrorObject jsstring jsstring  \<comment> \<open>an \<open>Error\<close> instance: its \<open>name\<close> and its \<open>message\<close>\<close>
  | Thrown 'v  \<comment> \<open>any other thrown value\<close>

datatype NotebookCellOutputItem =
    OutputText jsstring string  \<comment> \<open>payload and mime type\<close>
  | OutputError jsstring "jsstring option"  \<comment> \<open>name and message (\<open>None\<close>: \<open>undefined\<close>)\<close>

definition textItem :: "jsstring \<Rightarrow> string option \<Rightarrow> NotebookCellOutputItem" where
  \<comment> \<open>\<open>vscode.NotebookCellOutputItem.text(value, mime?)\<close>; the mime type defaults to
      \<open>text/plain\<close>.\<close>
  "textItem v mime = OutputText v (case mime of None \<Rightarrow> ''text/plain'' | Some m \<Rightarrow> m)"

datatype event =
    Created jsstring  \<comment> \<open>\<open>controller.createNotebookCellExecution(cell)\<close>\<close>
  | Started jsstring int  \<comment> \<open>\<open>execution.start(time)\<close>\<close>
  | ReplacedOutput jsstring "NotebookCellOutputItem list list"  \<comment> \<open>\<open>execution.replaceOutput(outputs)\<close>\<close>
  | Ended jsstring bool int  \<comment> \<open>\<open>execution.end(success, time)\<close>\<close>

record ('s, 'v) services =
  evaluateCode :: "'s \<Rightarrow> jsstring \<Rightarrow> ('v thrown + jsstring) \<times> 's"
  prettyPrint :: "jsstring \<Rightarrow> 'v thrown + jsstring"
  stringify :: "'v thrown \<Rightarrow> 'v thrown + jsstring option"
  now :: "nat \<Rightarrow> int"

record 's world =
  session :: 's
  clock :: nat
  trace :: "event list"

definition emit :: "event \<Rightarrow> 's world \<Rightarrow> 's world" where
  "emit ev w = w\<lparr>trace := trace w @ [ev]\<rparr>"

definition dateNow :: "('s, 'v) services \<Rightarrow> 's world \<Rightarrow> int \<times> 's world" where
  "dateNow env w = (now env (clock w), w\<lparr>clock := clock w + 1\<rparr>)"

definition successOutput :: "jsstring \<Rightarrow> jsstring \<Rightarrow> NotebookCellOutputItem list" where
  "successOutput response pretty =
     (let output = [textItem response None,
                    textItem (js ''```clojure\<newline>'' @ pretty @ js ''\<newline>```'') (Some ''text/markdown''),
                    textItem response (Some ''x-application/edn'')]
      in if startsWith (replaceQuotes True response) (js ''<html'')
         then output @ [textItem (replaceQuotes True response) (Some ''text/html'')]
         else output)"

definition errorName :: "'v thrown \<Rightarrow> jsstring" where
  \<comment> \<open>\<open>(err instanceof Error && err.name) || 'error'\<close>\<close>
  "errorName err =
     (case err of ErrorObject n m \<Rightarrow> if n \<noteq> [] then n else js ''error''
                | Thrown v \<Rightarrow> js ''error'')"

definition errorMessage :: "('s, 'v) services \<Rightarrow> 'v thrown \<Rightarrow> 'v thrown + jsstring option" where
  \<comment> \<open>\<open>(err instanceof Error && err.message) || JSON.stringify(err, undefined, 4)\<close>: the call
      of \<open>JSON.stringify\<close> may throw.\<close>
  "errorMessage env err =
     (case err of ErrorObject n m \<Rightarrow> if m \<noteq> [] then Inr (Some m) else stringify env err
                | Thrown v \<Rightarrow> stringify env err)"

definition errorOutput :: "('s, 'v) services \<Rightarrow> 'v thrown \<Rightarrow> 'v thrown + NotebookCellOutputItem" where
  \<comment> \<open>\<open>vscode.NotebookCellOutputItem.error({name: ..., message: ...})\<close>: the name is computed
      first, then the message; when that throws, no item is made.\<close>
  "errorOutput env err =
     (let name = errorName err
      in case errorMessage env err of
           Inl thrown \<Rightarrow> Inl thrown
         | Inr message \<Rightarrow> Inr (OutputError name message))"

definition attempt :: "('s, 'v) services \<Rightarrow> jsstring \<Rightarrow> 's \<Rightarrow> ('v thrown + NotebookCellOutputItem list) \<times> 's" where
  \<comment> \<open>The part of the \<open>try\<close> block that can throw: evaluation and pretty printing.\<close>
  "attempt env cell s =
     (case evaluateCode env s cell of
        (Inl err, s') \<Rightarrow> (Inl err, s')
      | (Inr response, s') \<Rightarrow>
          (case prettyPrint env response of
             Inl err \<Rightarrow> (Inl err, s')
           | Inr pretty \<Rightarrow> (Inr (successOutput response pretty), s')))"

definition doExecution :: "('s, 'v) services \<Rightarrow> jsstring \<Rightarrow> 's world \<Rightarrow> 's world \<times> 'v thrown option" where
  \<comment> \<open>The second component is \<open>None\<close> when the promise resolves and the thrown value when it
      rejects: the argument of \<open>replaceOutput\<close> in the \<open>catch\<close> block is built before the call,
      so a throw of \<open>JSON.stringify\<close> leaves the execution started, without output and not
      ended.\<close>
  "doExecution env cell w =
     (let w1 = emit (Created cell) w;
          (t1, w2) = dateNow env w1;
          w3 = emit (Started cell t1) w2;
          (r, s') = attempt env cell (session w3);
          w4 = w3\<lparr>session := s'\<rparr>
      in case r of
           Inr output \<Rightarrow>
             (let w5 = emit (ReplacedOutput cell [output]) w4;
                  (t2, w6) = dateNow env w5
              in (emit (Ended cell True t2) w6, None))
         | Inl err \<Rightarrow>
             (case errorOutput env err of
                Inl thrown \<Rightarrow> (w4, Some thrown)
              | Inr item \<Rightarrow>
                  (let w5 = emit (ReplacedOutput cell [[item]]) w4;
                       (t2, w6) = dateNow env w5
                   in (emit (Ended cell False t2) w6, None))))"

fun executeAll :: "('s, 'v) services \<Rightarrow> jsstring list \<Rightarrow> 's world \<Rightarrow> 's world \<times> 'v thrown option" where
  \<comment> \<open>\<open>for (const cell of cells) { await doExecution(cell, controller); }\<close>: a rejection ends
      the loop.\<close>
  "executeAll env [] w = (w, None)"
| "executeAll env (cell # cells) w =
     (case doExecution env cell w of
        (w', Some thrown) \<Rightarrow> (w', Some thrown)
      | (w', None) \<Rightarrow> executeAll env cells w')"

section \<open>Notions used in the statements and proofs\<close>

definition trailingWhiteSpace :: "jsstring \<Rightarrow> jsstring" where
  \<comment> \<open>What \<open>trimEnd\<close> removes.\<close>
  "trailingWhiteSpace s = drop (length (trimEnd s)) s"

definition strippedNewlines :: "jsstring \<Rightarrow> nat" where
  \<comment> \<open>The number of newline characters (code unit \<open>0x0A\<close>) among those that \<open>trimEnd\<close>
      removes.\<close>
  "strippedNewlines s = length (filter (\<lambda>c. c = 0x0A) (trailingWhiteSpace s))"

fun markedLines :: "jsstring \<Rightarrow> bool" where
  \<comment> \<open>Every newline is followed by the marker and a space: every line is a comment line.\<close>
  "markedLines [] = True"
| "markedLines (c # cs) = ((if c = 0x0A then startsWith cs (js '';; '') else True) \<and> markedLines cs)"

definition commentRegion :: "jsstring \<Rightarrow> bool" where
  \<comment> \<open>A comment block that the joiner restores: it starts with two newlines and the marker,
      only newlines follow its last line, and each of its lines is a comment line.\<close>
  "commentRegion R \<longleftrightarrow>
     startsWith R (js ''\<newline>\<newline>;; '') \<and>
     list_all (\<lambda>c. c = 0x0A) (trailingWhiteSpace R) \<and>
     markedLines (trimEnd (substringFrom R 1))"

definition validSpans :: "jsstring \<Rightarrow> (int \<times> int) list \<Rightarrow> bool" where
  \<comment> \<open>The spans are ordered, do not overlap and lie within the text.\<close>
  "validSpans content forms \<longleftrightarrow> sorted (0 # flat forms @ [int (length content)])"

definition separatorRegions :: "jsstring \<Rightarrow> (int \<times> int) list \<Rightarrow> jsstring list" where
  \<comment> \<open>The text of the even-indexed ranges: what lies before, between and after the forms.\<close>
  "separatorRegions content forms =
     (let rs = allRanges content forms
      in map (\<lambda>((s, e), i). substring content s e)
           (filter (\<lambda>(r, i). even i) (zip rs [0..<length rs])))"

definition emits :: "NotebookCellData \<Rightarrow> jsstring \<Rightarrow> bool" where
  \<comment> \<open>The cell made from a region gives the region back: it is dropped by the filter and the
      region is empty, or it is kept and the joiner writes the region for it.\<close>
  "emits x r \<longleftrightarrow> (cell_value x = [] \<and> r = []) \<or> (cell_value x \<noteq> [] \<and> cellText x = Inr r)"

definition stripQuotePair :: "jsstring \<Rightarrow> jsstring" where
  \<comment> \<open>In the words of the specification: one leading and one trailing literal quote
      character are stripped, each if present.\<close>
  "stripQuotePair r =
     (let r1 = (case r of [] \<Rightarrow> [] | c # cs \<Rightarrow> if c = 0x22 then cs else r)
      in if r1 \<noteq> [] \<and> last r1 = 0x22 then butlast r1 else r1)"



fun endedCells :: "event list \<Rightarrow> jsstring list" where
  \<comment> \<open>The cells whose execution was ended, in the order of the trace.\<close>
  "endedCells [] = []"
| "endedCells (Ended cell ok t # evs) = cell # endedCells evs"
| "endedCells (ev # evs) = endedCells evs"

definition emitted :: "('s, 'v) services \<Rightarrow> jsstring list \<Rightarrow> 's world \<Rightarrow> event list" where
  \<comment> \<open>The host calls that a run of \<open>cells\<close> adds to the trace.\<close>
  "emitted env cells w = drop (length (trace w)) (trace (fst (executeAll env cells w)))"

section \<open>Concrete inputs\<close>

definition scenario_text :: jsstring where
  "scenario_text = js ''(+ 1 2)\<newline>\<newline>;; hello\<newline>;; world\<newline>\<newline>(+ 3 4)''"

definition rt_text :: jsstring where
  "rt_text = js ''\<newline>\<newline>;; note\<newline>;; more\<newline>\<newline>(def x 1)(inc x)''"

definition lossy_text :: jsstring where
  "lossy_text = js ''(a)\<newline>\<newline>;; hi \<newline>(b)''"

definition gap_text :: jsstring where
  "gap_text = js ''(a)\<newline>(b)''"

datatype demo_value =
    Seven  \<comment> \<open>the number \<open>7\<close>\<close>
  | Circular  \<comment> \<open>an object that refers to itself\<close>

definition demo :: "(nat, demo_value) services" where
  \<comment> \<open>A stand-in for the services: \<open>(+ 1 2)\<close> evaluates to \<open>3\<close>, \<open>(page)\<close> to a quoted HTML
      string, \<open>(throw 7)\<close> throws the number \<open>7\<close>, \<open>(throw cycle)\<close> throws an object that refers
      to itself, anything else throws \<open>new Error()\<close>; the session counts the evaluations.
      \<open>JSON.stringify\<close> throws a TypeError on the object that refers to itself.\<close>
  "demo =
     \<lparr>evaluateCode = (\<lambda>s code.
        (if code = js ''(+ 1 2)'' then Inr (js ''3'')
         else if code = js ''(page)'' then Inr (js ''\"<html><body>hi</body></html>\"'')
         else if code = js ''(throw 7)'' then Inl (Thrown Seven)
         else if code = js ''(throw cycle)'' then Inl (Thrown Circular)
         else Inl (ErrorObject (js ''Error'') []), s + 1)),
      prettyPrint = (\<lambda>r. Inr r),
      stringify = (\<lambda>e. case e of
                         Thrown Seven \<Rightarrow> Inr (Some (js ''7''))
                       | Thrown Circular \<Rightarrow>
                           Inl (ErrorObject (js ''TypeError'') (js ''Converting circular structure to JSON''))
                       | ErrorObject n m \<Rightarrow> Inr (Some (js ''{}''))),
      now = (\<lambda>k. 1000 + 5 * int k)\<rparr>"


definition idle :: "nat world" where
  "idle = \<lparr>session = 0, clock = 0, trace = []\<rparr>"

section \<open>Facts about the string functions\<close>

lemma js_nlnl: "js ''\<newline>\<newline>;; '' = [10, 10, 59, 59, 32]"
  by (simp add: js_def)

lemma js_nl_marker: "js ''\<newline>;; '' = [10, 59, 59, 32]"
  by (simp add: js_def)

lemma js_nl: "js ''\<newline>'' = [10]"
  by (simp add: js_def)

lemma js_marker: "js '';; '' = [59, 59, 32]"
  by (simp add: js_def)

lemma not_ws_semi: "\<not> isWhiteSpace 59"
  by (simp add: isWhiteSpace_def)

lemma trimEnd_append_keep:
  "\<not> isWhiteSpace c \<Longrightarrow> trimEnd (xs @ c # ys) = xs @ c # trimEnd ys"
  by (simp add: trimEnd_def dropWhile_append)

lemma trimEnd_prefix: "prefix (trimEnd s) s"
proof -
  have "s = rev (dropWhile isWhiteSpace (rev s)) @ rev (takeWhile isWhiteSpace (rev s))"
    by (metis rev_append rev_rev_ident takeWhile_dropWhile_id)
  then show ?thesis unfolding trimEnd_def by (metis prefixI)
qed

lemma trimEnd_decomp: "s = trimEnd s @ trailingWhiteSpace s"
  unfolding trailingWhiteSpace_def using trimEnd_prefix [of s]
  by (metis append_eq_conv_conj prefixE)

lemma trailingWhiteSpace_eq: "trailingWhiteSpace s = rev (takeWhile isWhiteSpace (rev s))"
proof -
  have "s = trimEnd s @ rev (takeWhile isWhiteSpace (rev s))"
    unfolding trimEnd_def by (metis rev_append rev_rev_ident takeWhile_dropWhile_id)
  then show ?thesis
    unfolding trailingWhiteSpace_def by (metis append_eq_conv_conj)
qed

lemma trailingWhiteSpace_all_ws: "\<forall>c \<in> set (trailingWhiteSpace s). isWhiteSpace c"
  unfolding trailingWhiteSpace_eq by (auto dest: set_takeWhileD)

lemma length_trailing: "int (length s) - int (length (trimEnd s)) = int (length (trailingWhiteSpace s))"
  using arg_cong [OF trimEnd_decomp [of s], of length] by simp

lemma filter_length_eq_iff: "length xs = length (filter P xs) \<longleftrightarrow> (\<forall>x \<in> set xs. P x)"
  by (metis filter_id_conv length_filter_less less_irrefl)

lemma substring_valid:
  "0 \<le> a \<Longrightarrow> a \<le> b \<Longrightarrow> b \<le> int (length s) \<Longrightarrow>
   substring s a b = take (nat b - nat a) (drop (nat a) s)"
  by (simp add: substring_def Let_def min_def max_def nat_diff_distrib)

lemma substringFrom_nat: "substringFrom s (int n) = drop n s"
  by (simp add: substringFrom_def substring_def Let_def min_def max_def)

lemma substring_append:
  assumes "0 \<le> a" "a \<le> b" "b \<le> d" "d \<le> int (length s)"
  shows "substring s a b @ substring s b d = substring s a d"
proof -
  define x y where "x = nat b - nat a" and "y = nat d - nat b"
  have xy: "x + y = nat d - nat a" and xa: "x + nat a = nat b"
    using assms by (simp_all add: x_def y_def)
  have "take (x + y) (drop (nat a) s) = take x (drop (nat a) s) @ take y (drop x (drop (nat a) s))"
    by (rule take_add)
  also have "drop x (drop (nat a) s) = drop (nat b) s"
    by (simp add: xa)
  finally have "take (nat d - nat a) (drop (nat a) s)
                = take (nat b - nat a) (drop (nat a) s) @ take (nat d - nat b) (drop (nat b) s)"
    by (simp add: xy [symmetric] x_def y_def)
  then show ?thesis
    using assms by (simp add: substring_valid)
qed

lemma substring_whole: "substring s 0 (int (length s)) = s"
  by (simp add: substring_def)

lemma indexOf_marker:
  assumes "startsWith R (js ''\<newline>\<newline>;; '')"
  shows "indexOf R (js ''\<newline>;; '') = 1"
proof -
  from assms obtain rest where R: "R = 10 # 10 # 59 # 59 # 32 # rest"
    by (auto simp: startsWith_def js_nlnl prefix_def)
  show ?thesis by (simp add: R js_nl_marker)
qed

lemma comment_value_starts_nl:
  assumes "startsWith R (js ''\<newline>\<newline>;; '')"
  shows "startsWith (replaceAll (js ''\<newline>;; '') (js ''\<newline>'') (trimEnd (substringFrom R 1)))
           (js ''\<newline>'')"
proof -
  from assms obtain rest where R: "R = 10 # 10 # 59 # 59 # 32 # rest"
    by (auto simp: startsWith_def js_nlnl prefix_def)
  have "substringFrom R 1 = drop 1 R"
    using substringFrom_nat [of R 1] by simp
  then have "trimEnd (substringFrom R 1) = [10, 59] @ 59 # trimEnd (32 # rest)"
    using trimEnd_append_keep [of 59 "[10, 59]" "32 # rest"] by (simp add: R not_ws_semi)
  then show ?thesis
    by (simp add: js_nl_marker js_nl startsWith_def)
qed

section \<open>The splitter\<close>

text \<open>
  Claim C3. Splitting the text \<open>(+ 1 2)\n\n;; hello\n;; world\n\n(+ 3 4)\<close> with the form spans
  \<open>[0,7)\<close> and \<open>[28,35)\<close> gives exactly three cells: the code cell \<open>(+ 1 2)\<close>, a markup cell
  with the content \<open>\nhello\nworld\<close> and the metadata \<open>asMarkdown = true\<close>,
  \<open>startingWhitespace = 1\<close>, \<open>endingWhitespace = 2\<close>, and the code cell \<open>(+ 3 4)\<close>; joining these
  cells gives the text back.
\<close>

theorem scenario_split_join:
  "parseClojure scenario_text [(0, 7), (28, 35)] =
     [\<lparr>cell_value = js ''(+ 1 2)'', kind = Code, languageId = ''clojure'', metadata = None\<rparr>,
      \<lparr>cell_value = js ''\<newline>hello\<newline>world'', kind = Markup, languageId = ''markdown'',
       metadata = Some \<lparr>asMarkdown = True, startingWhitespace = 1, endingWhitespace = 2\<rparr>\<rparr>,
      \<lparr>cell_value = js ''(+ 3 4)'', kind = Code, languageId = ''clojure'', metadata = None\<rparr>]
   \<and> writeCellsToClojure
       [\<lparr>cell_value = js ''(+ 1 2)'', kind = Code, languageId = ''clojure'', metadata = None\<rparr>,
        \<lparr>cell_value = js ''\<newline>hello\<newline>world'', kind = Markup, languageId = ''markdown'',
         metadata = Some \<lparr>asMarkdown = True, startingWhitespace = 1, endingWhitespace = 2\<rparr>\<rparr>,
        \<lparr>cell_value = js ''(+ 3 4)'', kind = Code, languageId = ''clojure'', metadata = None\<rparr>]
     = Inr scenario_text
   \<and> length scenario_text = 35"
  by code_simp

lemma rangeCell_metadata:
  assumes "metadata (rangeCell content ((s, e), i)) = Some m"
  shows "even i \<and> s \<noteq> e \<and> startsWith (substring content s e) (js ''\<newline>\<newline>;; '') \<and>
         rangeCell content ((s, e), i) =
           \<lparr>cell_value = replaceAll (js ''\<newline>;; '') (js ''\<newline>'')
               (trimEnd (substringFrom (substring content s e)
                  (indexOf (substring content s e) (js ''\<newline>;; '')))),
            kind = Markup, languageId = ''markdown'',
            metadata = Some \<lparr>asMarkdown = True,
              startingWhitespace = indexOf (substring content s e) (js ''\<newline>;; ''),
              endingWhitespace = int (length (substring content s e))
                                 - int (length (trimEnd (substring content s e)))\<rparr>\<rparr>"
  using assms by (auto simp: rangeCell_def Let_def split: if_splits)

lemma in_rangeCells:
  "x \<in> set (rangeCells content forms) \<Longrightarrow> \<exists>s e i. x = rangeCell content ((s, e), i)"
  by (auto simp: rangeCells_def Let_def in_set_zip)

text \<open>
  Claim C10. For every text and every list of spans, a cell of \<open>parseClojure\<close>'s result that
  carries metadata is a comment-derived markup cell: \<open>asMarkdown\<close> is set, its
  \<open>startingWhitespace\<close> is exactly \<open>1\<close>, and its content begins with a newline.
\<close>

theorem comment_cell_leading:
  assumes "x \<in> set (parseClojure content forms)" and "metadata x = Some m"
  shows "asMarkdown m \<and> kind x = Markup \<and> startingWhitespace m = 1 \<and>
         startsWith (cell_value x) (js ''\<newline>'')"
proof -
  from assms(1) have "x \<in> set (rangeCells content forms)"
    by (simp add: parseClojure_def)
  then obtain s e i where x: "x = rangeCell content ((s, e), i)"
    using in_rangeCells by blast
  note r = rangeCell_metadata [OF assms(2) [unfolded x]]
  from r have sw: "startsWith (substring content s e) (js ''\<newline>\<newline>;; '')" by simp
  from r have xeq: "x = \<lparr>cell_value = replaceAll (js ''\<newline>;; '') (js ''\<newline>'')
               (trimEnd (substringFrom (substring content s e)
                  (indexOf (substring content s e) (js ''\<newline>;; '')))),
            kind = Markup, languageId = ''markdown'',
            metadata = Some \<lparr>asMarkdown = True,
              startingWhitespace = indexOf (substring content s e) (js ''\<newline>;; ''),
              endingWhitespace = int (length (substring content s e))
                                 - int (length (trimEnd (substring content s e)))\<rparr>\<rparr>"
    using x by simp
  have m: "m = \<lparr>asMarkdown = True,
              startingWhitespace = indexOf (substring content s e) (js ''\<newline>;; ''),
              endingWhitespace = int (length (substring content s e))
                                 - int (length (trimEnd (substring content s e)))\<rparr>"
    using assms(2) by (subst (asm) xeq) simp
  show ?thesis
    using indexOf_marker [OF sw] comment_value_starts_nl [OF sw]
    by (subst (1 2) xeq) (simp add: m)
qed

text \<open>
  The markup cell of the scenario is such a cell.
\<close>

theorem comment_cell_leading_witness:
  "\<lparr>cell_value = js ''\<newline>hello\<newline>world'', kind = Markup, languageId = ''markdown'',
     metadata = Some \<lparr>asMarkdown = True, startingWhitespace = 1, endingWhitespace = 2\<rparr>\<rparr>
     \<in> set (parseClojure scenario_text [(0, 7), (28, 35)]) \<and>
   startingWhitespace \<lparr>asMarkdown = True, startingWhitespace = 1, endingWhitespace = 2\<rparr> = 1 \<and>
   startsWith (js ''\<newline>hello\<newline>world'') (js ''\<newline>'')"
proof -
  let ?m = "\<lparr>asMarkdown = True, startingWhitespace = 1, endingWhitespace = 2\<rparr>"
  let ?x = "\<lparr>cell_value = js ''\<newline>hello\<newline>world'', kind = Markup, languageId = ''markdown'',
             metadata = Some ?m\<rparr>"
  have h1: "?x \<in> set (parseClojure scenario_text [(0, 7), (28, 35)])" by code_simp
  have h2: "metadata ?x = Some ?m" by simp
  from comment_cell_leading [OF h1 h2] h1 show ?thesis by simp
qed

text \<open>
  Claim C5, as amended. For every comment-derived separator region (an even-indexed range
  with \<open>start \<noteq> end\<close> whose text starts with \<open>\n\n;; \<close>), the recorded \<open>endingWhitespace\<close> is the
  number of code units that \<open>trimEnd\<close> removes from the region. All of them are white space
  of any kind (spaces, tabs, newlines, ...), and the value is the number of newline characters
  removed exactly when nothing but newlines is removed.
\<close>

theorem endingWhitespace_counts_whitespace:
  assumes "even i" and "s \<noteq> e"
    and "startsWith (substring content s e) (js ''\<newline>\<newline>;; '')"
  shows "\<exists>m. metadata (rangeCell content ((s, e), i)) = Some m \<and>
           endingWhitespace m = int (length (trailingWhiteSpace (substring content s e))) \<and>
           (\<forall>c \<in> set (trailingWhiteSpace (substring content s e)). isWhiteSpace c) \<and>
           (endingWhitespace m = int (strippedNewlines (substring content s e)) \<longleftrightarrow>
              (\<forall>c \<in> set (trailingWhiteSpace (substring content s e)). c = 10))"
  using assms trailingWhiteSpace_all_ws [of "substring content s e"]
  by (simp add: rangeCell_def Let_def length_trailing strippedNewlines_def filter_length_eq_iff)

theorem endingWhitespace_counts_whitespace_witness:
  "even (2 :: nat) \<and> (3 :: int) \<noteq> 12 \<and>
   startsWith (substring lossy_text 3 12) (js ''\<newline>\<newline>;; '') \<and>
   trailingWhiteSpace (substring lossy_text 3 12) = js '' \<newline>'' \<and>
   (\<exists>m. metadata (rangeCell lossy_text ((3, 12), 2)) = Some m \<and> endingWhitespace m = 2)"
proof -
  have a: "even (2 :: nat)" by simp
  have b: "(3 :: int) \<noteq> 12" by simp
  have c: "startsWith (substring lossy_text 3 12) (js ''\<newline>\<newline>;; '')" by code_simp
  have d: "trailingWhiteSpace (substring lossy_text 3 12) = js '' \<newline>''" by code_simp
  have l: "length (js '' \<newline>'') = 2" by (simp add: js_def)
  from endingWhitespace_counts_whitespace [OF a b c] a b c d l show ?thesis
    by auto
qed

text \<open>
  The claim as it was stated counts newline characters only. In the region \<open>\n\n;; hi \n\<close>
  (a space before the last newline) \<open>trimEnd\<close> removes one newline, and the recorded
  \<open>endingWhitespace\<close> is \<open>2\<close>.
\<close>

theorem endingWhitespace_counterexample:
  "metadata (rangeCell lossy_text ((3, 12), 2))
     = Some \<lparr>asMarkdown = True, startingWhitespace = 1, endingWhitespace = 2\<rparr> \<and>
   substring lossy_text 3 12 = js ''\<newline>\<newline>;; hi \<newline>'' \<and>
   trimEnd (substring lossy_text 3 12) = js ''\<newline>\<newline>;; hi'' \<and>
   strippedNewlines (substring lossy_text 3 12) = 1"
  by code_simp

lemma length_flat: "length (flat forms) = 2 * length forms"
  by (induction forms) (auto simp: flat_def)

lemma flat_Cons: "flat ((s, e) # forms) = s # e # flat forms"
  by (simp add: flat_def)

lemma flat_nth:
  "k < length forms \<Longrightarrow>
   flat forms ! (2 * k) = fst (forms ! k) \<and> flat forms ! (2 * k + 1) = snd (forms ! k)"
proof (induction forms arbitrary: k)
  case Nil
  then show ?case by simp
next
  case (Cons f forms)
  obtain s e where f: "f = (s, e)" by (cases f)
  show ?case
  proof (cases k)
    case 0
    then show ?thesis by (simp add: f flat_Cons)
  next
    case (Suc j)
    with Cons.prems have "j < length forms" by simp
    from Cons.IH [OF this] show ?thesis by (simp add: Suc f flat_Cons)
  qed
qed

lemma allRanges_eq:
  "allRanges content forms = zip (0 # flat forms) (flat forms @ [int (length content)])"
  by (simp add: allRanges_def Let_def butlast_append)

lemma length_allRanges: "length (allRanges content forms) = 2 * length forms + 1"
  by (simp add: allRanges_eq length_flat)

lemma allRanges_odd:
  assumes "k < length forms"
  shows "allRanges content forms ! (2 * k + 1) = forms ! k"
proof -
  have "2 * k + 1 < length (flat forms)" using assms by (simp add: length_flat)
  then have "allRanges content forms ! (2 * k + 1) = (flat forms ! (2 * k), flat forms ! (2 * k + 1))"
    by (simp add: allRanges_eq nth_append)
  then show ?thesis using flat_nth [OF assms] by simp
qed

lemma length_rangeCells: "length (rangeCells content forms) = 2 * length forms + 1"
  by (simp add: rangeCells_def Let_def length_allRanges)

lemma rangeCells_nth:
  "i < 2 * length forms + 1 \<Longrightarrow>
   rangeCells content forms ! i = rangeCell content (allRanges content forms ! i, i)"
  by (simp add: rangeCells_def Let_def length_allRanges del: upt_Suc)

lemma rangeCell_kind:
  "kind (rangeCell content (r, i)) = (if even i then Markup else Code)"
  by (cases r) (simp add: rangeCell_def Let_def even_iff_mod_2_eq_zero)

lemma rangeCell_odd_value:
  "odd i \<Longrightarrow> cell_value (rangeCell content ((s, e), i)) = substring content s e"
  by (simp add: rangeCell_def Let_def even_iff_mod_2_eq_zero)

text \<open>
  Claim C4. For every text and every list of spans, the list of cells before the filter has
  one cell per consecutive pair of offsets (\<open>2 n + 1\<close> cells for \<open>n\<close> spans); the cell at an even
  index is a markup cell and the cell at an odd index a code cell; the code cell at index
  \<open>2 k + 1\<close> holds the substring of the text at the \<open>k\<close>-th span; and the filter keeps the order:
  the result of \<open>parseClojure\<close> is a subsequence of the unfiltered list that holds exactly its
  cells of non-empty content. The substring at a span \<open>[s, e)\<close> within the text is the text from
  offset \<open>s\<close> up to offset \<open>e\<close>, unchanged.
\<close>

theorem classification_alternation:
  "length (rangeCells content forms) = 2 * length forms + 1 \<and>
   (\<forall>i < length (rangeCells content forms).
      kind (rangeCells content forms ! i) = (if even i then Markup else Code)) \<and>
   (\<forall>k < length forms.
      cell_value (rangeCells content forms ! (2 * k + 1))
        = substring content (fst (forms ! k)) (snd (forms ! k))) \<and>
   subseq (parseClojure content forms) (rangeCells content forms) \<and>
   (\<forall>x \<in> set (rangeCells content forms).
      cell_value x \<noteq> [] \<longleftrightarrow> x \<in> set (parseClojure content forms)) \<and>
   (\<forall>s e. 0 \<le> s \<and> s \<le> e \<and> e \<le> int (length content) \<longrightarrow>
      substring content s e = take (nat e - nat s) (drop (nat s) content))"
proof (intro conjI allI impI ballI)
  show "length (rangeCells content forms) = 2 * length forms + 1"
    by (rule length_rangeCells)
next
  fix i assume "i < length (rangeCells content forms)"
  then show "kind (rangeCells content forms ! i) = (if even i then Markup else Code)"
    by (simp add: length_rangeCells rangeCells_nth rangeCell_kind)
next
  fix k assume k: "k < length forms"
  then have "rangeCells content forms ! (2 * k + 1) = rangeCell content (forms ! k, 2 * k + 1)"
    using allRanges_odd [OF k, of content] by (simp add: rangeCells_nth)
  then show "cell_value (rangeCells content forms ! (2 * k + 1))
        = substring content (fst (forms ! k)) (snd (forms ! k))"
    using rangeCell_odd_value [of "2 * k + 1" content "fst (forms ! k)" "snd (forms ! k)"]
    by simp
next
  show "subseq (parseClojure content forms) (rangeCells content forms)"
    by (simp add: parseClojure_def)
next
  fix x assume "x \<in> set (rangeCells content forms)"
  then show "cell_value x \<noteq> [] \<longleftrightarrow> x \<in> set (parseClojure content forms)"
    by (simp add: parseClojure_def)
next
  fix s e assume "0 \<le> s \<and> s \<le> e \<and> e \<le> int (length content)"
  then show "substring content s e = take (nat e - nat s) (drop (nat s) content)"
    by (simp add: substring_valid)
qed

theorem classification_alternation_witness:
  "length (rangeCells scenario_text [(0, 7), (28, 35)]) = 5 \<and>
   kind (rangeCells scenario_text [(0, 7), (28, 35)] ! 2) = Markup \<and>
   kind (rangeCells scenario_text [(0, 7), (28, 35)] ! 3) = Code \<and>
   cell_value (rangeCells scenario_text [(0, 7), (28, 35)] ! 3) = substring scenario_text 28 35 \<and>
   substring scenario_text 28 35 = js ''(+ 3 4)'' \<and>
   subseq (parseClojure scenario_text [(0, 7), (28, 35)]) (rangeCells scenario_text [(0, 7), (28, 35)])"
proof -
  note t = classification_alternation [of scenario_text "[(0, 7), (28, 35)]"]
  note l = t [THEN conjunct1]
  note k = t [THEN conjunct2, THEN conjunct1]
  note v = t [THEN conjunct2, THEN conjunct2, THEN conjunct1]
  note s = t [THEN conjunct2, THEN conjunct2, THEN conjunct2, THEN conjunct1]
  have x: "substring scenario_text 28 35 = js ''(+ 3 4)''" by code_simp
  from k [rule_format, of 2] k [rule_format, of 3] v [rule_format, of 1] l s x
  show ?thesis by simp
qed

section \<open>Splitting and joining again\<close>

lemma markedLines_drop: "markedLines s \<Longrightarrow> markedLines (drop n s)"
proof (induction s arbitrary: n)
  case Nil
  then show ?case by simp
next
  case (Cons c cs)
  then show ?case by (cases n) auto
qed

lemma comment_uncomment:
  "markedLines s \<Longrightarrow>
   replaceAll [10] [10, 59, 59, 32] (replaceAll [10, 59, 59, 32] [10] s) = s"
proof (induction "[10, 59, 59, 32] :: jsstring" "[10] :: jsstring" s rule: replaceAll.induct)
  case 1
  then show ?case by simp
next
  case (2 c cs)
  show ?case
  proof (cases "prefix [10, 59, 59, 32] (c # cs)")
    case True
    then obtain rest where cs: "c = 10" "cs = 59 # 59 # 32 # rest"
      by (auto simp: prefix_def)
    have "markedLines rest"
      using markedLines_drop [OF "2.prems", of 4] by (simp add: cs)
    then have "replaceAll [10] [10, 59, 59, 32] (replaceAll [10, 59, 59, 32] [10] rest) = rest"
      using "2.hyps"(1) True by (simp add: cs)
    then show ?thesis by (simp add: cs)
  next
    case False
    have ne: "c \<noteq> 10"
    proof
      assume "c = 10"
      with "2.prems" have "prefix [59, 59, 32] cs" by (simp add: startsWith_def js_marker)
      with \<open>c = 10\<close> False show False by (auto simp: prefix_def)
    qed
    from "2.prems" have "markedLines cs" by simp
    then have "replaceAll [10] [10, 59, 59, 32] (replaceAll [10, 59, 59, 32] [10] cs) = cs"
      using "2.hyps"(2) False by simp
    then show ?thesis using False ne by simp
  qed
qed

lemma concat_regions:
  "sorted (a # L) \<Longrightarrow> 0 \<le> a \<Longrightarrow> \<forall>x \<in> set (a # L). x \<le> int (length s) \<Longrightarrow>
   concat (map (\<lambda>(a, b). substring s a b) (zip (a # L) L)) = substring s a (last (a # L))"
proof (induction L arbitrary: a)
  case Nil
  then show ?case by (simp add: substring_def)
next
  case (Cons b L)
  then have ab: "a \<le> b" and b0: "0 \<le> b" and sb: "sorted (b # L)"
    and bd: "b \<le> last (b # L)" and bl: "\<forall>x \<in> set (b # L). x \<le> int (length s)"
    by auto
  have dl: "last (b # L) \<le> int (length s)"
    using bl last_in_set [of "b # L"] by blast
  have "concat (map (\<lambda>(a, b). substring s a b) (zip (a # b # L) (b # L)))
        = substring s a b @ concat (map (\<lambda>(a, b). substring s a b) (zip (b # L) L))"
    by simp
  also have "\<dots> = substring s a b @ substring s b (last (b # L))"
    using Cons.IH [OF sb b0 bl] by simp
  also have "\<dots> = substring s a (last (b # L))"
    using substring_append [OF Cons.prems(2) ab bd dl] .
  finally show ?case by simp
qed

lemma replicate_all_same: "list_all (\<lambda>c. c = a) xs \<Longrightarrow> xs = replicate (length xs) a"
  by (induction xs) auto

lemma concat_replicate_single: "concat (replicate n [a]) = replicate n a"
  by (induction n) auto

lemma comment_region_text:
  assumes "commentRegion R"
  shows "[10] @ replaceAll (js ''\<newline>'') (js ''\<newline>;; '')
                  (replaceAll (js ''\<newline>;; '') (js ''\<newline>'') (trimEnd (substringFrom R 1)))
              @ replicate (length (trailingWhiteSpace R)) 10 = R"
proof -
  from assms have sw: "startsWith R (js ''\<newline>\<newline>;; '')"
    and tw: "list_all (\<lambda>c. c = 10) (trailingWhiteSpace R)"
    and ml: "markedLines (trimEnd (substringFrom R 1))"
    by (simp_all add: commentRegion_def)
  from sw obtain rest where R: "R = 10 # 10 # 59 # 59 # 32 # rest"
    by (auto simp: startsWith_def js_nlnl prefix_def)
  have "substringFrom R 1 = drop 1 R"
    using substringFrom_nat [of R 1] by simp
  then have t1: "trimEnd (substringFrom R 1) = [10] @ 59 # trimEnd (59 # 32 # rest)"
    using trimEnd_append_keep [of 59 "[10]" "59 # 32 # rest"] by (simp add: R not_ws_semi)
  have t2: "trimEnd R = [10, 10] @ 59 # trimEnd (59 # 32 # rest)"
    using trimEnd_append_keep [of 59 "[10, 10]" "59 # 32 # rest"] by (simp add: R not_ws_semi)
  have "replaceAll (js ''\<newline>'') (js ''\<newline>;; '')
          (replaceAll (js ''\<newline>;; '') (js ''\<newline>'') (trimEnd (substringFrom R 1)))
        = trimEnd (substringFrom R 1)"
    using comment_uncomment [OF ml] by (simp add: js_nl js_nl_marker)
  moreover have "[10] @ trimEnd (substringFrom R 1) = trimEnd R"
    by (simp add: t1 t2)
  moreover have "replicate (length (trailingWhiteSpace R)) 10 = trailingWhiteSpace R"
    using replicate_all_same [OF tw] by simp
  ultimately have "[10] @ replaceAll (js ''\<newline>'') (js ''\<newline>;; '')
                  (replaceAll (js ''\<newline>;; '') (js ''\<newline>'') (trimEnd (substringFrom R 1)))
              @ replicate (length (trailingWhiteSpace R)) 10 = trimEnd R @ trailingWhiteSpace R"
    by (metis append_assoc)
  then show ?thesis
    using trimEnd_decomp [of R] by simp
qed

lemma repeat_nl: "repeat (js ''\<newline>'') (int n) = Inr (replicate n 10)"
  by (simp add: repeat_def js_nl concat_replicate_single)

lemma rangeCell_emits:
  assumes "odd i \<or> substring content s e = [] \<or> commentRegion (substring content s e)"
  shows "emits (rangeCell content ((s, e), i)) (substring content s e)"
proof (cases "even i")
  case False
  then show ?thesis
    by (simp add: emits_def rangeCell_def Let_def cellText_def even_iff_mod_2_eq_zero)
next
  case True
  note ev = True
  show ?thesis
  proof (cases "substring content s e = []")
    case True
    then have "\<not> startsWith (substring content s e) (js ''\<newline>\<newline>;; '')"
      by (simp add: startsWith_def js_nlnl)
    with True ev show ?thesis
      by (simp add: emits_def rangeCell_def Let_def even_iff_mod_2_eq_zero)
  next
    case False
    with assms ev have cr: "commentRegion (substring content s e)" by simp
    then have sw: "startsWith (substring content s e) (js ''\<newline>\<newline>;; '')"
      by (simp add: commentRegion_def)
    have se: "s \<noteq> e"
      using False by (auto simp: substring_def Let_def)
    let ?R = "substring content s e"
    let ?v = "replaceAll (js ''\<newline>;; '') (js ''\<newline>'') (trimEnd (substringFrom ?R 1))"
    have cell: "rangeCell content ((s, e), i) =
                 \<lparr>cell_value = ?v, kind = Markup, languageId = ''markdown'',
                  metadata = Some \<lparr>asMarkdown = True, startingWhitespace = 1,
                     endingWhitespace = int (length (trailingWhiteSpace ?R))\<rparr>\<rparr>"
      using ev se sw indexOf_marker [OF sw]
      by (simp add: rangeCell_def Let_def even_iff_mod_2_eq_zero length_trailing)
    have ne: "?v \<noteq> []"
      using comment_value_starts_nl [OF sw] by (auto simp: startsWith_def js_nl)
    have "cellText (rangeCell content ((s, e), i))
          = Inr ([10] @ replaceAll (js ''\<newline>'') (js ''\<newline>;; '') ?v
                   @ replicate (length (trailingWhiteSpace ?R)) 10)"
      using repeat_nl [of 1] repeat_nl [of "length (trailingWhiteSpace ?R)"]
      by (simp add: cell cellText_def)
    then have "cellText (rangeCell content ((s, e), i)) = Inr ?R"
      using comment_region_text [OF cr] by simp
    with ne show ?thesis
      by (simp add: emits_def cell)
  qed
qed

lemma join_emits:
  "list_all2 emits cells regions \<Longrightarrow>
   \<exists>parts. mapE cellText (filter (\<lambda>x. length (cell_value x) \<noteq> 0) cells) = Inr parts \<and>
           concat parts = concat regions"
proof (induction rule: list_all2_induct)
  case Nil
  then show ?case by simp
next
  case (Cons x xs r rs)
  then obtain parts where p: "mapE cellText (filter (\<lambda>x. length (cell_value x) \<noteq> 0) xs) = Inr parts"
      "concat parts = concat rs"
    by blast
  from Cons(1) p show ?case
    by (auto simp: emits_def)
qed

lemma separatorRegions_mem:
  assumes "i < length (allRanges content forms)" "even i" "allRanges content forms ! i = (s, e)"
  shows "substring content s e \<in> set (separatorRegions content forms)"
proof -
  let ?rs = "allRanges content forms"
  have "((s, e), i) \<in> set (zip ?rs [0..<length ?rs])"
    using assms by (auto simp: in_set_zip)
  with assms(2) have "((s, e), i) \<in> set (filter (\<lambda>(r, i). even i) (zip ?rs [0..<length ?rs]))"
    by simp
  then have "(\<lambda>((s, e), i). substring content s e) ((s, e), i)
               \<in> set (separatorRegions content forms)"
    unfolding separatorRegions_def Let_def set_map by (rule imageI)
  then show ?thesis by simp
qed

lemma concat_allRanges:
  assumes "validSpans content forms"
  shows "concat (map (\<lambda>(s, e). substring content s e) (allRanges content forms)) = content"
proof -
  let ?n = "int (length content)"
  let ?L = "flat forms @ [?n]"
  have srt: "sorted (0 # ?L)" using assms by (simp add: validSpans_def)
  then have "sorted ((0 # flat forms) @ [?n])" by simp
  then have "\<forall>x \<in> set (0 # flat forms). x \<le> ?n"
    unfolding sorted_append by simp
  then have bnd: "\<forall>x \<in> set (0 # ?L). x \<le> ?n" by auto
  have "zip ((0 # flat forms) @ [?n]) ((flat forms @ [?n]) @ []) =
        zip (0 # flat forms) (flat forms @ [?n]) @ zip [?n] []"
    by (rule zip_append) simp
  then have "allRanges content forms = zip (0 # ?L) ?L"
    by (simp add: allRanges_eq)
  then have "concat (map (\<lambda>(s, e). substring content s e) (allRanges content forms))
             = substring content 0 (last (0 # ?L))"
    using concat_regions [OF srt _ bnd] by simp
  then show ?thesis by (simp add: substring_whole)
qed

text \<open>
  Claim C1, as amended. Let the spans be ordered and within the text
  (\<open>0 \<le> s\<^sub>1 \<le> e\<^sub>1 \<le> s\<^sub>2 \<le> \<dots> \<le> e\<^sub>n \<le> length\<close>), and let every separator region be empty or a
  comment block: it starts with \<open>\n\n;; \<close>, every newline of the trimmed region after the first
  is followed by \<open>;; \<close>, and the white space at its end consists of newline characters only.
  Then \<open>writeCellsToClojure\<close> applied to the result of \<open>parseClojure\<close> raises no error and returns
  the text, code unit for code unit. Nothing is said here about texts with another kind of
  separator region.
\<close>

theorem round_trip:
  assumes "validSpans content forms"
    and "list_all (\<lambda>R. R = [] \<or> commentRegion R) (separatorRegions content forms)"
  shows "writeCellsToClojure (parseClojure content forms) = Inr content"
proof -
  let ?rs = "allRanges content forms"
  let ?regions = "map (\<lambda>(s, e). substring content s e) ?rs"
  have "list_all2 emits (rangeCells content forms) ?regions"
  proof (rule list_all2_all_nthI)
    show "length (rangeCells content forms) = length ?regions"
      by (simp add: length_rangeCells length_allRanges)
  next
    fix i assume "i < length (rangeCells content forms)"
    then have i: "i < 2 * length forms + 1" by (simp add: length_rangeCells)
    obtain s e where se: "?rs ! i = (s, e)" by (cases "?rs ! i")
    have "odd i \<or> substring content s e = [] \<or> commentRegion (substring content s e)"
    proof (cases "even i")
      case True
      then have "substring content s e \<in> set (separatorRegions content forms)"
        using separatorRegions_mem [OF _ True se] i by (simp add: length_allRanges)
      with assms(2) show ?thesis by (auto simp: list_all_iff)
    next
      case False
      then show ?thesis by simp
    qed
    then have "emits (rangeCell content ((s, e), i)) (substring content s e)"
      by (rule rangeCell_emits)
    then show "emits (rangeCells content forms ! i) (?regions ! i)"
      using i se by (simp add: rangeCells_nth length_allRanges)
  qed
  then obtain parts where
    "mapE cellText (filter (\<lambda>x. length (cell_value x) \<noteq> 0) (rangeCells content forms)) = Inr parts"
    "concat parts = concat ?regions"
    using join_emits by blast
  then show ?thesis
    using concat_allRanges [OF assms(1)]
    by (simp add: writeCellsToClojure_def parseClojure_def)
qed

theorem round_trip_witness:
  "validSpans rt_text [(19, 28), (28, 35)] \<and>
   list_all (\<lambda>R. R = [] \<or> commentRegion R) (separatorRegions rt_text [(19, 28), (28, 35)]) \<and>
   separatorRegions rt_text [(19, 28), (28, 35)] = [js ''\<newline>\<newline>;; note\<newline>;; more\<newline>\<newline>'', [], []] \<and>
   writeCellsToClojure (parseClojure rt_text [(19, 28), (28, 35)]) = Inr rt_text"
proof -
  have v: "validSpans rt_text [(19, 28), (28, 35)]" by code_simp
  have c: "list_all (\<lambda>R. R = [] \<or> commentRegion R) (separatorRegions rt_text [(19, 28), (28, 35)])"
    by code_simp
  have s: "separatorRegions rt_text [(19, 28), (28, 35)] = [js ''\<newline>\<newline>;; note\<newline>;; more\<newline>\<newline>'', [], []]"
    by code_simp
  show ?thesis using v c s round_trip [OF v c] by simp
qed

text \<open>
  The claim as it was stated asks only for the marker on every content line. In the text
  \<open>(a)\n\n;; hi \n(b)\<close> the comment line is marked, and a space stands before the newline that
  ends it: the splitter records two code units of ending white space and the joiner writes two
  newlines, so the text that comes back differs from the one that went in.
\<close>

theorem round_trip_counterexample:
  "validSpans lossy_text [(0, 3), (12, 15)] \<and>
   separatorRegions lossy_text [(0, 3), (12, 15)] = [[], js ''\<newline>\<newline>;; hi \<newline>'', []] \<and>
   markedLines (trimEnd (substringFrom (js ''\<newline>\<newline>;; hi \<newline>'') 1)) \<and>
   writeCellsToClojure (parseClojure lossy_text [(0, 3), (12, 15)])
     = Inr (js ''(a)\<newline>\<newline>;; hi\<newline>\<newline>(b)'') \<and>
   writeCellsToClojure (parseClojure lossy_text [(0, 3), (12, 15)]) \<noteq> Inr lossy_text"
  by code_simp

text \<open>
  Claim C2. The text \<open>(a)\n(b)\<close> with the spans \<open>[0,3)\<close> and \<open>[4,7)\<close> is split into a code cell, a
  plain markup cell \<open>\n\<close> that has no metadata, and a code cell. On this list of cells
  \<open>writeCellsToClojure\<close> raises a TypeError, since it reads \<open>x.metadata.asMarkdown\<close> of the plain
  markup cell: the joiner is not total on what the splitter returns.
\<close>

theorem joiner_raises_on_plain_prose:
  "parseClojure gap_text [(0, 3), (4, 7)] =
     [\<lparr>cell_value = js ''(a)'', kind = Code, languageId = ''clojure'', metadata = None\<rparr>,
      \<lparr>cell_value = js ''\<newline>'', kind = Markup, languageId = ''markdown'', metadata = None\<rparr>,
      \<lparr>cell_value = js ''(b)'', kind = Code, languageId = ''clojure'', metadata = None\<rparr>] \<and>
   writeCellsToClojure (parseClojure gap_text [(0, 3), (4, 7)]) = Inl TypeError"
  by code_simp

section \<open>The execution pipeline\<close>

lemma replaceQuotes_False:
  "replaceQuotes False s = (if s \<noteq> [] \<and> last s = 0x22 then butlast s else s)"
  by (induction s) auto

lemma replaceQuotes_True: "replaceQuotes True s = stripQuotePair s"
  by (cases s) (auto simp: stripQuotePair_def replaceQuotes_False)

lemma attempt_success:
  "evaluateCode env s cell = (Inr R, s') \<Longrightarrow> prettyPrint env R = Inr P \<Longrightarrow>
   attempt env cell s = (Inr (successOutput R P), s')"
  by (simp add: attempt_def)

lemma attempt_failure:
  assumes "fst (evaluateCode env s cell) = Inl err \<or>
           (\<exists>R. fst (evaluateCode env s cell) = Inr R \<and> prettyPrint env R = Inl err)"
  shows "fst (attempt env cell s) = Inl err"
  using assms by (cases "evaluateCode env s cell") (auto simp: attempt_def)

lemma doExecution_success:
  assumes "fst (attempt env cell (session w)) = Inr output"
  shows "doExecution env cell w =
           (\<lparr>session = snd (attempt env cell (session w)), clock = clock w + 2,
             trace = trace w @
               [Created cell, Started cell (now env (clock w)),
                ReplacedOutput cell [output], Ended cell True (now env (clock w + 1))]\<rparr>,
            None)"
  using assms
  by (cases "attempt env cell (session w)")
     (simp add: doExecution_def Let_def emit_def dateNow_def)

lemma doExecution_described:
  assumes "fst (attempt env cell (session w)) = Inl err" and "errorOutput env err = Inr item"
  shows "doExecution env cell w =
           (\<lparr>session = snd (attempt env cell (session w)), clock = clock w + 2,
             trace = trace w @
               [Created cell, Started cell (now env (clock w)),
                ReplacedOutput cell [[item]], Ended cell False (now env (clock w + 1))]\<rparr>,
            None)"
  using assms
  by (cases "attempt env cell (session w)")
     (simp add: doExecution_def Let_def emit_def dateNow_def)







text \<open>
  Claim C6. When the evaluation of a cell returns the result \<open>R\<close> and the pretty printer
  returns \<open>P\<close> for it, the execution replaces the cell's output by one output with the items,
  in this order: \<open>R\<close> as \<open>text/plain\<close>; \<open>```clojure\n\<close>, \<open>P\<close>, \<open>\n```\<close> as \<open>text/markdown\<close>; \<open>R\<close> again
  as \<open>x-application/edn\<close>; and a fourth item, tagged \<open>text/html\<close>, whose payload is \<open>R\<close> with one
  leading and one trailing quote character stripped, exactly when that stripped text starts with
  \<open><html\<close>. The execution is started before and ended with success after, and it resolves.
\<close>

theorem success_outputs:
  assumes "evaluateCode env (session w) cell = (Inr R, s')" and "prettyPrint env R = Inr P"
  shows "trace (fst (doExecution env cell w)) =
           trace w @
           [Created cell,
            Started cell (now env (clock w)),
            ReplacedOutput cell
              [[OutputText R ''text/plain'',
                OutputText (js ''```clojure\<newline>'' @ P @ js ''\<newline>```'') ''text/markdown'',
                OutputText R ''x-application/edn'']
               @ (if startsWith (stripQuotePair R) (js ''<html'')
                  then [OutputText (stripQuotePair R) ''text/html''] else [])],
            Ended cell True (now env (clock w + 1))] \<and>
         snd (doExecution env cell w) = None"
proof -
  have "fst (attempt env cell (session w)) = Inr (successOutput R P)"
    using attempt_success [OF assms] by simp
  from doExecution_success [OF this] show ?thesis
    by (simp add: successOutput_def textItem_def replaceQuotes_True)
qed

text \<open>
  The two scenarios of the specification: the result \<open>3\<close> gives three items, and the quoted
  string \<open>"<html><body>hi</body></html>"\<close> gives a fourth one, tagged \<open>text/html\<close>, without the quotes.
\<close>

theorem success_outputs_witness:
  "trace (fst (doExecution demo (js ''(+ 1 2)'') idle)) =
     [Created (js ''(+ 1 2)''), Started (js ''(+ 1 2)'') 1000,
      ReplacedOutput (js ''(+ 1 2)'')
        [[OutputText (js ''3'') ''text/plain'',
          OutputText (js ''```clojure\<newline>3\<newline>```'') ''text/markdown'',
          OutputText (js ''3'') ''x-application/edn'']],
      Ended (js ''(+ 1 2)'') True 1005] \<and>
   trace (fst (doExecution demo (js ''(page)'') idle)) =
     [Created (js ''(page)''), Started (js ''(page)'') 1000,
      ReplacedOutput (js ''(page)'')
        [[OutputText (js ''\"<html><body>hi</body></html>\"'') ''text/plain'',
          OutputText (js ''```clojure\<newline>\"<html><body>hi</body></html>\"\<newline>```'') ''text/markdown'',
          OutputText (js ''\"<html><body>hi</body></html>\"'') ''x-application/edn'',
          OutputText (js ''<html><body>hi</body></html>'') ''text/html'']],
      Ended (js ''(page)'') True 1005]"
proof -
  have e1: "evaluateCode demo (session idle) (js ''(+ 1 2)'') = (Inr (js ''3''), 1)"
    by code_simp
  have p1: "prettyPrint demo (js ''3'') = Inr (js ''3'')"
    by (simp add: demo_def)
  have e2: "evaluateCode demo (session idle) (js ''(page)'')
            = (Inr (js ''\"<html><body>hi</body></html>\"''), 1)"
    by code_simp
  have p2: "prettyPrint demo (js ''\"<html><body>hi</body></html>\"'')
            = Inr (js ''\"<html><body>hi</body></html>\"'')"
    by (simp add: demo_def)
  have s1: "stripQuotePair (js ''3'') = js ''3''" by code_simp
  have s2: "stripQuotePair (js ''\"<html><body>hi</body></html>\"'') = js ''<html><body>hi</body></html>''"
    by code_simp
  have h1: "\<not> startsWith (js ''3'') (js ''<html'')" by code_simp
  have h2: "startsWith (js ''<html><body>hi</body></html>'') (js ''<html'')" by code_simp
  have n: "now demo (clock idle) = 1000" "now demo (Suc (clock idle)) = 1005" "trace idle = []"
    by (simp_all add: demo_def idle_def)
  have j: "js ''```clojure\<newline>'' @ js ''3'' @ js ''\<newline>```'' = js ''```clojure\<newline>3\<newline>```''"
    "js ''```clojure\<newline>'' @ js ''\"<html><body>hi</body></html>\"'' @ js ''\<newline>```''
     = js ''```clojure\<newline>\"<html><body>hi</body></html>\"\<newline>```''"
    by (simp_all add: js_def)
  show ?thesis
    using success_outputs [OF e1 p1] success_outputs [OF e2 p2]
    by (simp add: s1 s2 h1 h2 n j)
qed










text \<open>
  Claim C7. The first cell throws an object that refers to itself. In the \<open>catch\<close> block
  \<open>JSON.stringify\<close> throws a TypeError on it, \<open>doExecution\<close> rejects with its execution started,
  without output and not ended, and the run ends there: the second cell, which would evaluate
  to \<open>3\<close>, is never executed. The failure of the first cell is not isolated.
\<close>

theorem run_aborts_when_rendering_throws:
  "fst (evaluateCode demo (session idle) (js ''(throw cycle)'')) = Inl (Thrown Circular) \<and>
   fst (evaluateCode demo 1 (js ''(+ 1 2)'')) = Inr (js ''3'') \<and>
   executeAll demo [js ''(throw cycle)'', js ''(+ 1 2)''] idle =
     (\<lparr>session = 1, clock = 1,
       trace = [Created (js ''(throw cycle)''), Started (js ''(throw cycle)'') 1000]\<rparr>,
      Some (ErrorObject (js ''TypeError'') (js ''Converting circular structure to JSON''))) \<and>
   endedCells (emitted demo [js ''(throw cycle)'', js ''(+ 1 2)''] idle) = []"
  by code_simp

text \<open>
  Claim C8, as amended. Let the evaluation or the pretty printing of a cell fail with the
  thrown value \<open>err\<close>, and let \<open>err\<close> be an error object with a non-empty message or
  \<open>JSON.stringify(err)\<close> return \<open>rendering\<close>. Then the execution resolves and its output is one
  error item. Its name is the name of \<open>err\<close> when \<open>err\<close> is an error object with a non-empty
  name, and \<open>error\<close> otherwise. Its message is the message of \<open>err\<close> when \<open>err\<close> is an error object
  with a non-empty message, and \<open>rendering\<close> otherwise. Nothing is said here about a thrown
  value on which \<open>JSON.stringify\<close> is called and throws.
\<close>

theorem error_fallback:
  assumes "fst (evaluateCode env (session w) cell) = Inl err \<or>
           (\<exists>R. fst (evaluateCode env (session w) cell) = Inr R \<and> prettyPrint env R = Inl err)"
    and "(\<exists>n m. err = ErrorObject n m \<and> m \<noteq> []) \<or> stringify env err = Inr rendering"
  shows "snd (doExecution env cell w) = None \<and>
         trace (fst (doExecution env cell w)) =
           trace w @
           [Created cell, Started cell (now env (clock w)),
            ReplacedOutput cell
              [[OutputError
                  (case err of ErrorObject n m \<Rightarrow> if n \<noteq> [] then n else js ''error''
                             | Thrown v \<Rightarrow> js ''error'')
                  (case err of ErrorObject n m \<Rightarrow> if m \<noteq> [] then Some m else rendering
                             | Thrown v \<Rightarrow> rendering)]],
            Ended cell False (now env (clock w + 1))]"
proof -
  have f: "fst (attempt env cell (session w)) = Inl err"
    using assms(1) by (rule attempt_failure)
  have "errorOutput env err =
          Inr (OutputError
                 (case err of ErrorObject n m \<Rightarrow> if n \<noteq> [] then n else js ''error''
                            | Thrown v \<Rightarrow> js ''error'')
                 (case err of ErrorObject n m \<Rightarrow> if m \<noteq> [] then Some m else rendering
                            | Thrown v \<Rightarrow> rendering))"
    using assms(2) by (cases err) (auto simp: errorOutput_def errorMessage_def errorName_def)
  from doExecution_described [OF f this] show ?thesis by simp
qed

text \<open>
  The claim as it was stated lets every error object keep its message. An error object with
  the empty message, as \<open>new Error()\<close> makes it, gets the JSON rendering instead.
\<close>

theorem error_fallback_counterexample:
  "fst (evaluateCode demo (session idle) (js ''(boom)'')) = Inl (ErrorObject (js ''Error'') []) \<and>
   doExecution demo (js ''(boom)'') idle =
     (\<lparr>session = 1, clock = 2,
       trace = [Created (js ''(boom)''), Started (js ''(boom)'') 1000,
                ReplacedOutput (js ''(boom)'') [[OutputError (js ''Error'') (Some (js ''{}''))]],
                Ended (js ''(boom)'') False 1005]\<rparr>,
      None) \<and>
   Some (js ''{}'') \<noteq> Some ([] :: jsstring)"
  by code_simp

text \<open>
  The number \<open>7\<close> is thrown: the name is \<open>error\<close> and the message is the rendering \<open>7\<close>.
\<close>

theorem error_fallback_witness:
  "fst (evaluateCode demo (session idle) (js ''(throw 7)'')) = Inl (Thrown Seven) \<and>
   stringify demo (Thrown Seven) = Inr (Some (js ''7'')) \<and>
   snd (doExecution demo (js ''(throw 7)'') idle) = None \<and>
   trace (fst (doExecution demo (js ''(throw 7)'') idle)) =
     [Created (js ''(throw 7)''), Started (js ''(throw 7)'') 1000,
      ReplacedOutput (js ''(throw 7)'') [[OutputError (js ''error'') (Some (js ''7''))]],
      Ended (js ''(throw 7)'') False 1005]"
proof -
  have e: "fst (evaluateCode demo (session idle) (js ''(throw 7)'')) = Inl (Thrown Seven)"
    by code_simp
  then have h1: "fst (evaluateCode demo (session idle) (js ''(throw 7)'')) = Inl (Thrown Seven) \<or>
     (\<exists>R. fst (evaluateCode demo (session idle) (js ''(throw 7)'')) = Inr R \<and>
          prettyPrint demo R = Inl (Thrown Seven))"
    by simp
  have s: "stringify demo (Thrown Seven) = Inr (Some (js ''7''))"
    by (simp add: demo_def)
  then have h2: "(\<exists>n m. Thrown Seven = ErrorObject n m \<and> m \<noteq> []) \<or>
                 stringify demo (Thrown Seven) = Inr (Some (js ''7''))"
    by simp
  from error_fallback [OF h1 h2] e s show ?thesis
    by (simp add: demo_def idle_def)
qed

end
